theory Spec2Isabelle
  imports Complex_Main
begin

section \<open>Numbers and errors of the Python source\<close>

text \<open>
  The module \<^verbatim>\<open>tensorflow_transform/beam/info_theory.py\<close> computes with Python numbers and
  numpy doubles. Its arguments are weights, integral or fractional, and are modelled as real
  numbers. The model is exact: a finite double is a real number and no rounding takes place,
  so it says nothing about the last bits of a result, while the three special values of IEEE arithmetic that numpy
  produces without raising (\<open>inf\<close>, \<open>-inf\<close>, \<open>nan\<close>) are kept, because \<^verbatim>\<open>np.log2(0)\<close>
  and \<^verbatim>\<open>np.log(0)\<close> return \<open>-inf\<close> and the logarithm of a negative number returns \<open>nan\<close>
  (each with a warning only). Signed zeros are not distinguished.
\<close>

datatype float64 = Fin real | PInf | NInf | NaN

text \<open>The exceptions the module can raise: \<^verbatim>\<open>ValueError\<close> (math domain error of
  \<^verbatim>\<open>math.lgamma\<close> at a pole), \<^verbatim>\<open>OverflowError\<close> (math range error of \<^verbatim>\<open>math.lgamma\<close>
  when its value exceeds the doubles) and \<^verbatim>\<open>ZeroDivisionError\<close> (division of Python
  floats).\<close>

datatype error = ValueError | OverflowError | ZeroDivisionError

definition bindE :: "error + 'a \<Rightarrow> ('a \<Rightarrow> error + 'b) \<Rightarrow> error + 'b" where
  "bindE m f = (case m of Inl e \<Rightarrow> Inl e | Inr v \<Rightarrow> f v)"

fun fneg :: "float64 \<Rightarrow> float64" where
  "fneg (Fin a) = Fin (- a)"
| "fneg PInf = NInf"
| "fneg NInf = PInf"
| "fneg NaN = NaN"

fun fadd :: "float64 \<Rightarrow> float64 \<Rightarrow> float64" where
  "fadd (Fin a) (Fin b) = Fin (a + b)"
| "fadd (Fin a) PInf = PInf"
| "fadd (Fin a) NInf = NInf"
| "fadd PInf (Fin b) = PInf"
| "fadd PInf PInf = PInf"
| "fadd PInf NInf = NaN"
| "fadd NInf (Fin b) = NInf"
| "fadd NInf NInf = NInf"
| "fadd NInf PInf = NaN"
| "fadd NaN b = NaN"
| "fadd a NaN = NaN"

definition fsub :: "float64 \<Rightarrow> float64 \<Rightarrow> float64" where
  "fsub a b = fadd a (fneg b)"

text \<open>The sign of an infinite product; an infinity times zero is \<open>nan\<close>.\<close>

definition signed_inf :: "real \<Rightarrow> float64" where
  "signed_inf s = (if s = 0 then NaN else if 0 < s then PInf else NInf)"

fun fmul :: "float64 \<Rightarrow> float64 \<Rightarrow> float64" where
  "fmul (Fin a) (Fin b) = Fin (a * b)"
| "fmul (Fin a) PInf = signed_inf a"
| "fmul (Fin a) NInf = signed_inf (- a)"
| "fmul PInf (Fin b) = signed_inf b"
| "fmul NInf (Fin b) = signed_inf (- b)"
| "fmul PInf PInf = PInf"
| "fmul PInf NInf = NInf"
| "fmul NInf PInf = NInf"
| "fmul NInf NInf = PInf"
| "fmul NaN b = NaN"
| "fmul a NaN = NaN"

text \<open>Division of numpy doubles never raises: a zero divisor gives \<open>nan\<close> or an infinity.\<close>

fun fdiv :: "float64 \<Rightarrow> float64 \<Rightarrow> float64" where
  "fdiv (Fin a) (Fin b) = (if b = 0 then signed_inf a else Fin (a / b))"
| "fdiv (Fin a) PInf = Fin 0"
| "fdiv (Fin a) NInf = Fin 0"
| "fdiv PInf (Fin b) = (if 0 \<le> b then PInf else NInf)"
| "fdiv NInf (Fin b) = (if 0 \<le> b then NInf else PInf)"
| "fdiv PInf PInf = NaN"
| "fdiv PInf NInf = NaN"
| "fdiv NInf PInf = NaN"
| "fdiv NInf NInf = NaN"
| "fdiv NaN b = NaN"
| "fdiv a NaN = NaN"

fun np_exp :: "float64 \<Rightarrow> float64" where
  "np_exp (Fin a) = Fin (exp a)"
| "np_exp PInf = PInf"
| "np_exp NInf = Fin 0"
| "np_exp NaN = NaN"

text \<open>\<^verbatim>\<open>np.log\<close> and \<^verbatim>\<open>np.log2\<close> are only ever applied to Python numbers in the source.\<close>

definition np_log :: "real \<Rightarrow> float64" where
  "np_log r = (if 0 < r then Fin (ln r) else if r = 0 then NInf else NaN)"

definition np_log2 :: "real \<Rightarrow> float64" where
  "np_log2 r = (if 0 < r then Fin (log 2 r) else if r = 0 then NInf else NaN)"

text \<open>
  The accumulators of the EMI loop start as the Python float \<^verbatim>\<open>0.0\<close> and become numpy
  doubles at the first \<^verbatim>\<open>+=\<close> with a numpy double. The difference shows in the final
  division: Python floats raise on a zero divisor, numpy doubles do not.
\<close>

datatype number = PyFloat real | Np float64

fun val :: "number \<Rightarrow> float64" where
  "val (PyFloat r) = Fin r"
| "val (Np f) = f"

definition iadd :: "number \<Rightarrow> float64 \<Rightarrow> number" where
  "iadd a p = Np (fadd (val a) p)"

fun truediv :: "number \<Rightarrow> number \<Rightarrow> error + float64" where
  "truediv (PyFloat a) (PyFloat b) =
     (if b = 0 then Inl ZeroDivisionError else Inr (Fin (a / b)))"
| "truediv (PyFloat a) (Np g) = Inr (fdiv (Fin a) g)"
| "truediv (Np f) b = Inr (fdiv f (val b))"

text \<open>\<^verbatim>\<open>int(r)\<close> on a finite number truncates towards zero.\<close>

definition py_int :: "real \<Rightarrow> int" where
  "py_int r = (if 0 \<le> r then \<lfloor>r\<rfloor> else \<lceil>r\<rceil>)"

section \<open>The log-gamma function of the mathematics library\<close>

text \<open>
  \<^verbatim>\<open>math.lgamma\<close> belongs to the C library and not to the module. The module is modelled for
  any function \<open>lgamma\<close> that returns a number or raises, so that a theorem which needs
  its log-factorials to return says so, and a range error of the library at a huge argument
  is not excluded.

  For concrete evaluations \<open>lgamma_exact\<close> is the mathematical function: the logarithm of the
  absolute value of the gamma function, as the limit of Gauss,
  \<open>ln \<bar>\<Gamma>(t)\<bar> = lim (t * ln n - ln \<bar>t\<bar> - \<Sum>k = 1..n. ln \<bar>t / k + 1\<bar>)\<close>, with a
  \<^verbatim>\<open>ValueError\<close> at the poles \<open>0, -1, -2, \<dots>\<close> and a finite value everywhere else, also at
  the negative numbers that are not integers. It is exact and has no range error.
\<close>

definition ln_gamma_series :: "real \<Rightarrow> nat \<Rightarrow> real" where
  "ln_gamma_series t n = t * ln (real n) - ln \<bar>t\<bar> - (\<Sum>k = 1..n. ln \<bar>t / real k + 1\<bar>)"

definition ln_gamma :: "real \<Rightarrow> real" where
  "ln_gamma t = lim (ln_gamma_series t)"

definition lgamma_exact :: "real \<Rightarrow> error + real" where
  "lgamma_exact t =
     (if t \<le> 0 \<and> real_of_int \<lfloor>t\<rfloor> = t then Inl ValueError else Inr (ln_gamma t))"

section \<open>The module\<close>

subsection \<open>Log-factorial\<close>

text \<open>\<^verbatim>\<open>_logfactorial(n) = math.lgamma(n + 1)\<close>.\<close>

definition logfactorial :: "(real \<Rightarrow> error + real) \<Rightarrow> real \<Rightarrow> error + real" where
  "logfactorial lgamma n = lgamma (n + 1)"

subsection \<open>Mutual information of one cell\<close>

definition calculate_partial_mutual_information ::
    "real \<Rightarrow> real \<Rightarrow> real \<Rightarrow> real \<Rightarrow> float64" where
  "calculate_partial_mutual_information n_ij x_i y_j n =
     (if n_ij = 0 then Fin 0
      else fmul (Fin n_ij)
             (fsub (fadd (np_log2 n_ij) (np_log2 n)) (fadd (np_log2 x_i) (np_log2 y_j))))"

subsection \<open>The hypergeometric probabilities\<close>

text \<open>The body of the \<^verbatim>\<open>for n_j in range(start, end + 1)\<close> loop of the generator, run over
  the list of the values of \<open>n_j\<close>; the pairs are collected in the order they are yielded.\<close>

fun pmf_loop ::
    "real \<Rightarrow> real \<Rightarrow> real \<Rightarrow> real \<Rightarrow> float64 \<Rightarrow> int list \<Rightarrow> (int \<times> float64) list" where
  "pmf_loop n x_i y_j numerator denominator [] = []"
| "pmf_loop n x_i y_j numerator denominator (n_j # rest) =
     (let p_j = np_exp (fsub (Fin numerator) denominator);
          denominator' = fadd denominator
            (fadd (fsub (fsub (np_log (of_int n_j + 1)) (np_log (x_i - of_int n_j)))
                        (np_log (y_j - of_int n_j)))
                  (np_log (n - x_i - y_j + of_int n_j + 1)))
      in (n_j, p_j) # pmf_loop n x_i y_j numerator denominator' rest)"

text \<open>\<open>start\<close> and \<open>end\<close> are truncated to integers. The log-factorials are evaluated in the
  order of the source, each one able to raise, before the loop starts.\<close>

definition hypergeometric_pmf ::
    "(real \<Rightarrow> error + real) \<Rightarrow> real \<Rightarrow> real \<Rightarrow> real \<Rightarrow> error + (int \<times> float64) list" where
  "hypergeometric_pmf lgamma n x_i y_j =
     (let start = py_int (max 0 (n - (n - x_i) - (n - y_j)));
          end_j = py_int (min x_i y_j)
      in bindE (logfactorial lgamma x_i) (\<lambda>a1.
         bindE (logfactorial lgamma y_j) (\<lambda>a2.
         bindE (logfactorial lgamma (n - x_i)) (\<lambda>a3.
         bindE (logfactorial lgamma (n - y_j)) (\<lambda>a4.
         bindE (logfactorial lgamma n) (\<lambda>d1.
         bindE (logfactorial lgamma (of_int start)) (\<lambda>d2.
         bindE (logfactorial lgamma (x_i - of_int start)) (\<lambda>d3.
         bindE (logfactorial lgamma (y_j - of_int start)) (\<lambda>d4.
         bindE (logfactorial lgamma (n - x_i - y_j + of_int start)) (\<lambda>d5.
           Inr (pmf_loop n x_i y_j (a1 + a2 + a3 + a4)
                  (Fin (d1 + d2 + d3 + d4 + d5)) [start..end_j])))))))))))"

subsection \<open>Expected mutual information of one pair\<close>

fun emi_loop :: "float64 \<Rightarrow> (int \<times> float64) list \<Rightarrow> number \<times> number \<Rightarrow> number \<times> number" where
  "emi_loop coefficient [] acc = acc"
| "emi_loop coefficient ((n_j, p_j) # rest) (partial_result, sum_probability) =
     emi_loop coefficient rest
       (if n_j \<noteq> 0
        then iadd partial_result
               (fmul (fmul (Fin (of_int n_j)) (fadd coefficient (np_log2 (of_int n_j)))) p_j)
        else partial_result,
        iadd sum_probability p_j)"

text \<open>The loop over a generator that yielded \<open>pmf\<close>, and the final division.\<close>

definition emi_of_pmf :: "float64 \<Rightarrow> (int \<times> float64) list \<Rightarrow> error + float64" where
  "emi_of_pmf coefficient pmf =
     (case emi_loop coefficient pmf (PyFloat 0, PyFloat 0) of
        (partial_result, sum_probability) \<Rightarrow> truediv partial_result sum_probability)"

definition calculate_partial_expected_mutual_information ::
    "(real \<Rightarrow> error + real) \<Rightarrow> real \<Rightarrow> real \<Rightarrow> real \<Rightarrow> error + float64" where
  "calculate_partial_expected_mutual_information lgamma n x_i y_j =
     (let coefficient = fadd (fsub (fneg (np_log2 x_i)) (np_log2 y_j)) (np_log2 n)
      in bindE (hypergeometric_pmf lgamma n x_i y_j) (emi_of_pmf coefficient))"

section \<open>Reference formulas\<close>

text \<open>
  The formulas that the documentation of the module states, written down as it words them,
  to be compared with the functions above.
\<close>

text \<open>The natural logarithm of a factorial, extended to weights by the gamma function.\<close>

definition lnfact :: "real \<Rightarrow> real" where
  "lnfact m = ln_gamma (m + 1)"

text \<open>The log-numerator and the log-denominator of the probability of a joint count, each a
  sum of log-factorials.\<close>

definition log_numerator :: "real \<Rightarrow> real \<Rightarrow> real \<Rightarrow> real" where
  "log_numerator n x_i y_j = lnfact x_i + lnfact y_j + lnfact (n - x_i) + lnfact (n - y_j)"

definition log_denominator :: "real \<Rightarrow> real \<Rightarrow> real \<Rightarrow> real \<Rightarrow> real" where
  "log_denominator n x_i y_j n_ij =
     lnfact n + lnfact n_ij + lnfact (x_i - n_ij) + lnfact (y_j - n_ij)
       + lnfact (n - x_i - y_j + n_ij)"

text \<open>The probability of the joint count \<open>n_ij\<close>, evaluated directly from the five
  log-factorials of its denominator.\<close>

definition hypergeometric_closed_form :: "real \<Rightarrow> real \<Rightarrow> real \<Rightarrow> real \<Rightarrow> real" where
  "hypergeometric_closed_form n x_i y_j n_ij =
     exp (log_numerator n x_i y_j - log_denominator n x_i y_j n_ij)"

text \<open>The same probability, for integral counts, as the quotient of factorials in the
  docstring of \<^verbatim>\<open>calculate_partial_expected_mutual_information\<close>.\<close>

definition hypergeometric_probability :: "int \<Rightarrow> int \<Rightarrow> int \<Rightarrow> int \<Rightarrow> real" where
  "hypergeometric_probability n x_i y_j n_ij =
     (fact (nat x_i) * fact (nat y_j) * fact (nat (n - x_i)) * fact (nat (n - y_j)))
     / (fact (nat n) * fact (nat n_ij) * fact (nat (x_i - n_ij)) * fact (nat (y_j - n_ij))
         * fact (nat (n - x_i - y_j + n_ij)))"

text \<open>The expected mutual information of that docstring: the sum, over the joint counts from
  \<open>max(0, x_i + y_j - n)\<close> to \<open>min(x_i, y_j)\<close>, of
  \<open>n_ij / n * log2(n * n_ij / (x_i * y_j))\<close> times the probability of \<open>n_ij\<close>.\<close>

definition expected_mutual_information_formula :: "int \<Rightarrow> int \<Rightarrow> int \<Rightarrow> real" where
  "expected_mutual_information_formula n x_i y_j =
     (\<Sum>n_ij\<leftarrow>[max 0 (x_i + y_j - n)..min x_i y_j].
        (of_int n_ij / of_int n)
          * log 2 (of_int n * of_int n_ij / (of_int x_i * of_int y_j))
          * hypergeometric_probability n x_i y_j n_ij)"

text \<open>The mutual information of one cell in its two stated forms,
  \<open>n_ij * (log2(n_ij * n) - log2(x_i * y_j))\<close> and
  \<open>n_ij * (log2(n_ij) + log2(n) - log2(x_i) - log2(y_j))\<close>.\<close>

definition partial_mutual_information_formula :: "real \<Rightarrow> real \<Rightarrow> real \<Rightarrow> real \<Rightarrow> float64" where
  "partial_mutual_information_formula n_ij x_i y_j n =
     fmul (Fin n_ij) (fsub (np_log2 (n_ij * n)) (np_log2 (x_i * y_j)))"

definition partial_mutual_information_expanded :: "real \<Rightarrow> real \<Rightarrow> real \<Rightarrow> real \<Rightarrow> float64" where
  "partial_mutual_information_expanded n_ij x_i y_j n =
     fmul (Fin n_ij)
       (fsub (fsub (fadd (np_log2 n_ij) (np_log2 n)) (np_log2 x_i)) (np_log2 y_j))"

text \<open>The arguments at which the generator calls \<^verbatim>\<open>math.lgamma\<close>, in the order of the calls:
  four for the numerator, five for the denominator.\<close>

definition lgamma_arguments :: "real \<Rightarrow> real \<Rightarrow> real \<Rightarrow> real list" where
  "lgamma_arguments n x_i y_j =
     (let start = real_of_int (py_int (max 0 (n - (n - x_i) - (n - y_j))))
      in [x_i + 1, y_j + 1, n - x_i + 1, n - y_j + 1,
          n + 1, start + 1, x_i - start + 1, y_j - start + 1, n - x_i - y_j + start + 1])"

section \<open>Auxiliary facts\<close>

subsection \<open>The log-gamma function\<close>

lemma ln_gamma_series_Suc:
  "ln_gamma_series t (Suc n) =
     ln_gamma_series t n + t * (ln (real (Suc n)) - ln (real n)) - ln \<bar>t / real (Suc n) + 1\<bar>"
  by (simp add: ln_gamma_series_def algebra_simps)

lemma ln_ratio:
  assumes "0 < t"
  shows "ln (t / real (Suc n) + 1) = ln (t + real (Suc n)) - ln (real (Suc n))"
proof -
  have "t / real (Suc n) + 1 = (t + real (Suc n)) / real (Suc n)"
    by (simp add: field_simps)
  moreover have "0 < t + real (Suc n)" using assms by simp
  ultimately show ?thesis by (simp add: ln_div)
qed

lemma ln_gamma_series_shift:
  assumes "0 < t"
  shows "ln_gamma_series (t + 1) n =
     ln_gamma_series t n + ln t + (ln (real n) - ln (t + 1 + real n))"
proof (induction n)
  case 0
  show ?case using assms by (simp add: ln_gamma_series_def)
next
  case (Suc n)
  have a: "\<bar>(t + 1) / real (Suc n) + 1\<bar> = (t + 1) / real (Suc n) + 1"
    and b: "\<bar>t / real (Suc n) + 1\<bar> = t / real (Suc n) + 1"
    using assms by (simp_all add: abs_of_pos add_pos_pos)
  have r1: "ln ((t + 1) / real (Suc n) + 1) = ln (t + 1 + real (Suc n)) - ln (real (Suc n))"
    using ln_ratio [of "t + 1" n] assms by simp
  have r2: "ln (t / real (Suc n) + 1) = ln (t + real (Suc n)) - ln (real (Suc n))"
    using assms by (rule ln_ratio)
  have e: "t + real (Suc n) = t + 1 + real n" by simp
  show ?case
    unfolding ln_gamma_series_Suc [of "t + 1"] ln_gamma_series_Suc [of t] Suc.IH a b r1 r2 e
    by (simp add: algebra_simps)
qed

lemma ln_ratio_tendsto:
  assumes "0 < c"
  shows "(\<lambda>n. ln (real n) - ln (c + real n)) \<longlonglongrightarrow> 0"
proof -
  have "(\<lambda>n. c * (1 / real n)) \<longlonglongrightarrow> c * 0"
    by (intro tendsto_intros lim_inverse_n')
  then have "(\<lambda>n. 1 + c * (1 / real n)) \<longlonglongrightarrow> 1 + c * 0"
    by (intro tendsto_intros)
  then have "(\<lambda>n. ln (1 + c * (1 / real n))) \<longlonglongrightarrow> ln (1 + c * 0)"
    by (rule tendsto_ln) simp
  then have l: "(\<lambda>n. - ln (1 + c * (1 / real n))) \<longlonglongrightarrow> 0"
    using tendsto_minus by fastforce
  have "eventually (\<lambda>n. - ln (1 + c * (1 / real n)) = ln (real n) - ln (c + real n)) sequentially"
    unfolding eventually_sequentially
  proof (intro exI allI impI)
    fix n :: nat
    assume n: "1 \<le> n"
    then have "1 + c * (1 / real n) = (c + real n) / real n"
      by (simp add: field_simps)
    moreover have "0 < c + real n" using assms by (simp add: add_pos_nonneg)
    ultimately show "- ln (1 + c * (1 / real n)) = ln (real n) - ln (c + real n)"
      using n by (simp add: ln_div)
  qed
  then show ?thesis
    using l by (rule Lim_transform_eventually [rotated])
qed

lemma ln_gamma_series_tendsto_shift:
  assumes "0 < t" "ln_gamma_series t \<longlonglongrightarrow> L"
  shows "ln_gamma_series (t + 1) \<longlonglongrightarrow> L + ln t"
proof -
  have "0 < t + 1" using assms by simp
  then have "(\<lambda>n. ln (real n) - ln (t + 1 + real n)) \<longlonglongrightarrow> 0"
    by (rule ln_ratio_tendsto)
  then have "(\<lambda>n. ln_gamma_series t n + ln t + (ln (real n) - ln (t + 1 + real n)))
      \<longlonglongrightarrow> L + ln t + 0"
    using assms(2) by (intro tendsto_intros)
  moreover have "ln_gamma_series (t + 1) =
      (\<lambda>n. ln_gamma_series t n + ln t + (ln (real n) - ln (t + 1 + real n)))"
    using assms(1) by (intro ext ln_gamma_series_shift)
  ultimately show ?thesis by simp
qed

lemma ln_gamma_series_one: "ln_gamma_series 1 \<longlonglongrightarrow> 0"
proof -
  have s: "ln_gamma_series 1 n = ln (real n) - ln (1 + real n)" for n
  proof (induction n)
    case 0
    show ?case by (simp add: ln_gamma_series_def)
  next
    case (Suc n)
    have "ln (1 / real (Suc n) + 1) = ln (1 + real (Suc n)) - ln (real (Suc n))"
      by (rule ln_ratio) simp
    moreover have "\<bar>1 / real (Suc n) + 1\<bar> = 1 / real (Suc n) + 1"
      by (simp add: abs_of_pos add_pos_pos)
    ultimately show ?case
      unfolding ln_gamma_series_Suc Suc.IH by (simp add: algebra_simps)
  qed
  have "(\<lambda>n. ln (real n) - ln (1 + real n)) \<longlonglongrightarrow> 0"
    by (rule ln_ratio_tendsto) simp
  then show ?thesis by (simp add: s [abs_def])
qed

lemma ln_gamma_series_increasing:
  assumes "0 < t"
  shows "ln_gamma_series t (Suc n) \<le> ln_gamma_series t (Suc (Suc n))"
proof -
  let ?m = "real (Suc (Suc n))"
  have "ln (real (Suc n) / ?m) \<le> real (Suc n) / ?m - 1"
    by (rule ln_le_minus_one) simp
  also have "\<dots> = - (1 / ?m)" by (simp add: field_simps)
  finally have "1 / ?m \<le> ln ?m - ln (real (Suc n))"
    by (simp add: ln_div)
  then have "t * (1 / ?m) \<le> t * (ln ?m - ln (real (Suc n)))"
    using assms by (intro mult_left_mono) simp_all
  moreover have "ln (1 + t / ?m) \<le> t / ?m"
    using assms by (intro ln_add_one_self_le_self) simp
  moreover have "\<bar>t / ?m + 1\<bar> = 1 + t / ?m"
    using assms by (simp add: abs_of_pos add_pos_pos)
  ultimately show ?thesis
    unfolding ln_gamma_series_Suc [of t "Suc n"] by simp
qed

lemma ln_gamma_series_growth:
  assumes "0 < t"
  shows "ln_gamma_series t (Suc (Suc n)) - ln_gamma_series t (Suc n)
     \<le> t * (t + 1) * (1 / real (Suc n) - 1 / real (Suc (Suc n)))"
proof -
  let ?k = "real (Suc n)" and ?m = "real (Suc (Suc n))"
  have "ln (1 + 1 / ?k) \<le> 1 / ?k"
    by (intro ln_add_one_self_le_self) simp
  moreover have "1 + 1 / ?k = ?m / ?k" by (simp add: field_simps)
  ultimately have "ln ?m - ln ?k \<le> 1 / ?k" by (simp add: ln_div)
  then have up: "t * (ln ?m - ln ?k) \<le> t * (1 / ?k)"
    using assms by (intro mult_left_mono) simp_all
  have pos: "0 < ?m + t" using assms by (simp add: add_pos_pos)
  have "ln (?m / (?m + t)) \<le> ?m / (?m + t) - 1"
    using pos by (intro ln_le_minus_one) simp
  also have "\<dots> = - (t / (?m + t))" using pos by (simp add: field_simps)
  finally have "t / (?m + t) \<le> ln (?m + t) - ln ?m"
    using pos by (simp add: ln_div)
  moreover have "1 + t / ?m = (?m + t) / ?m" by (simp add: field_simps)
  ultimately have low: "t / (?m + t) \<le> ln (1 + t / ?m)"
    using pos by (simp add: ln_div)
  have a: "\<bar>t / ?m + 1\<bar> = 1 + t / ?m"
    using assms by (simp add: abs_of_pos add_pos_pos)
  have "ln_gamma_series t (Suc (Suc n)) - ln_gamma_series t (Suc n)
      \<le> t * (1 / ?k) - t / (?m + t)"
    unfolding ln_gamma_series_Suc [of t "Suc n"] a using up low by simp
  also have "\<dots> = t * (t + 1) / (?k * (?m + t))"
    using pos by (simp add: field_simps)
  also have "\<dots> \<le> t * (t + 1) / (?k * ?m)"
    using assms by (intro divide_left_mono mult_left_mono mult_pos_pos) simp_all
  also have "\<dots> = t * (t + 1) * (1 / ?k - 1 / ?m)"
    by (simp add: field_simps)
  finally show ?thesis .
qed

lemma ln_gamma_series_bounded:
  assumes "0 < t"
  shows "ln_gamma_series t (Suc n) \<le>
     ln_gamma_series t 1 + t * (t + 1) * (1 - 1 / real (Suc n))"
proof (induction n)
  case 0
  show ?case by simp
next
  case (Suc n)
  have "ln_gamma_series t (Suc (Suc n)) \<le>
      ln_gamma_series t (Suc n) + t * (t + 1) * (1 / real (Suc n) - 1 / real (Suc (Suc n)))"
    using ln_gamma_series_growth [OF assms, of n] by simp
  also have "\<dots> \<le> ln_gamma_series t 1 + t * (t + 1) * (1 - 1 / real (Suc n))
      + t * (t + 1) * (1 / real (Suc n) - 1 / real (Suc (Suc n)))"
    using Suc.IH by simp
  also have "\<dots> = ln_gamma_series t 1 + t * (t + 1) * (1 - 1 / real (Suc (Suc n)))"
    by (simp add: algebra_simps)
  finally show ?case .
qed

lemma ln_gamma_series_converges:
  assumes "0 < t"
  shows "ln_gamma_series t \<longlonglongrightarrow> ln_gamma t"
    and "ln_gamma_series t (Suc n) \<le> ln_gamma t"
proof -
  let ?X = "\<lambda>n. ln_gamma_series t (Suc n)"
  have inc: "incseq ?X"
    using assms by (intro incseq_SucI ln_gamma_series_increasing)
  have "\<forall>n. ?X n \<le> ln_gamma_series t 1 + t * (t + 1)"
  proof
    fix n
    have "t * (t + 1) * (1 - 1 / real (Suc n)) \<le> t * (t + 1) * 1"
      using assms by (intro mult_left_mono) simp_all
    then show "?X n \<le> ln_gamma_series t 1 + t * (t + 1)"
      using ln_gamma_series_bounded [OF assms, of n] by simp
  qed
  with inc obtain L where L: "?X \<longlonglongrightarrow> L"
    by (rule incseq_convergent)
  then have "ln_gamma_series t \<longlonglongrightarrow> L"
    by (rule LIMSEQ_imp_Suc)
  then have eq: "ln_gamma t = L"
    unfolding ln_gamma_def by (rule limI)
  show "ln_gamma_series t \<longlonglongrightarrow> ln_gamma t"
    using \<open>ln_gamma_series t \<longlonglongrightarrow> L\<close> eq by simp
  show "ln_gamma_series t (Suc n) \<le> ln_gamma t"
    using incseq_le [OF inc L, of n] eq by simp
qed

lemma ln_gamma_plus_one: "0 < t \<Longrightarrow> ln_gamma (t + 1) = ln_gamma t + ln t"
  unfolding ln_gamma_def [of "t + 1"]
  by (intro limI ln_gamma_series_tendsto_shift ln_gamma_series_converges)

lemma ln_gamma_one: "ln_gamma 1 = 0"
  unfolding ln_gamma_def by (intro limI ln_gamma_series_one)

lemma ln_gamma_fact: "ln_gamma (real n + 1) = ln (fact n)"
proof (induction n)
  case 0
  show ?case by (simp add: ln_gamma_one)
next
  case (Suc n)
  have "ln_gamma (real (Suc n) + 1) = ln_gamma ((real n + 1) + 1)"
    by (simp add: add.commute)
  also have "\<dots> = ln_gamma (real n + 1) + ln (real n + 1)"
    by (rule ln_gamma_plus_one) simp
  also have "\<dots> = ln (fact n) + ln (real n + 1)" by (simp only: Suc.IH)
  also have "\<dots> = ln (fact (Suc n))"
    by (simp add: ln_mult_pos add.commute)
  finally show ?case .
qed

subsection \<open>Truncation, the exact log-gamma function and the outcome of the generator\<close>

lemma py_int_of_int: "py_int (of_int k) = k"
  by (simp add: py_int_def)

lemma py_int_nonneg: "0 \<le> r \<Longrightarrow> py_int r = \<lfloor>r\<rfloor>"
  by (simp add: py_int_def)

lemma lgamma_exact_pos: "0 < t \<Longrightarrow> lgamma_exact t = Inr (ln_gamma t)"
  by (simp add: lgamma_exact_def)


lemma ln_gamma_2: "ln_gamma 2 = 0"
  using ln_gamma_fact [of 1] by simp

lemma ln_gamma_3: "ln_gamma 3 = ln 2"
  using ln_gamma_fact [of 2] by (simp add: fact_numeral)

lemma ln_gamma_4: "ln_gamma 4 = ln 6"
  using ln_gamma_fact [of 3] by (simp add: fact_numeral)

lemma lnfact_plus_one: "- 1 < m \<Longrightarrow> lnfact (m + 1) = lnfact m + ln (m + 1)"
  using ln_gamma_plus_one [of "m + 1"] by (simp add: lnfact_def)

lemma hypergeometric_pmf_defined:
  assumes "\<forall>t\<in>set (lgamma_arguments n x_i y_j). lgamma t = Inr (g t)"
  shows "hypergeometric_pmf lgamma n x_i y_j =
     (let start = py_int (max 0 (n - (n - x_i) - (n - y_j)))
      in Inr (pmf_loop n x_i y_j
           (g (x_i + 1) + g (y_j + 1) + g (n - x_i + 1) + g (n - y_j + 1))
           (Fin (g (n + 1) + g (of_int start + 1) + g (x_i - of_int start + 1)
                  + g (y_j - of_int start + 1) + g (n - x_i - y_j + of_int start + 1)))
           [start..py_int (min x_i y_j)]))"
  using assms
  by (simp add: hypergeometric_pmf_def lgamma_arguments_def logfactorial_def bindE_def Let_def)

lemma hypergeometric_pmf_returns:
  assumes "\<forall>t\<in>set (lgamma_arguments n x_i y_j). \<exists>v. lgamma t = Inr v"
  shows "\<exists>num den. hypergeometric_pmf lgamma n x_i y_j =
     Inr (pmf_loop n x_i y_j num den
            [py_int (max 0 (n - (n - x_i) - (n - y_j)))..py_int (min x_i y_j)])"
proof -
  have "\<forall>t\<in>set (lgamma_arguments n x_i y_j). lgamma t = Inr (projr (lgamma t))"
    using assms by auto
  then show ?thesis
    by (subst hypergeometric_pmf_defined [where g = "\<lambda>t. projr (lgamma t)"])
      (auto simp add: Let_def)
qed


subsection \<open>The loop of the generator\<close>

lemma np_log2_neg: "r < 0 \<Longrightarrow> np_log2 r = NaN"
  by (simp add: np_log2_def)

lemma np_log2_pos: "0 < r \<Longrightarrow> np_log2 r = Fin (log 2 r)"
  by (simp add: np_log2_def)

lemma np_log_pos: "0 < r \<Longrightarrow> np_log r = Fin (ln r)"
  by (simp add: np_log_def)


lemma log_denominator_step:
  assumes "0 \<le> k" "of_int k + 1 \<le> x_i" "of_int k + 1 \<le> y_j" "0 < n - x_i - y_j + of_int k + 1"
  shows "log_denominator n x_i y_j (of_int (k + 1)) =
     log_denominator n x_i y_j (of_int k)
       + (ln (of_int k + 1) - ln (x_i - of_int k) - ln (y_j - of_int k)
          + ln (n - x_i - y_j + of_int k + 1))"
proof -
  have a: "lnfact (of_int k + 1) = lnfact (of_int k) + ln (of_int k + 1)"
    using assms(1) by (intro lnfact_plus_one) simp
  have "lnfact ((x_i - of_int k - 1) + 1) = lnfact (x_i - of_int k - 1) + ln ((x_i - of_int k - 1) + 1)"
    using assms(2) by (intro lnfact_plus_one) simp
  then have b: "lnfact (x_i - (of_int k + 1)) = lnfact (x_i - of_int k) - ln (x_i - of_int k)"
    by (simp add: algebra_simps)
  have "lnfact ((y_j - of_int k - 1) + 1) = lnfact (y_j - of_int k - 1) + ln ((y_j - of_int k - 1) + 1)"
    using assms(3) by (intro lnfact_plus_one) simp
  then have c: "lnfact (y_j - (of_int k + 1)) = lnfact (y_j - of_int k) - ln (y_j - of_int k)"
    by (simp add: algebra_simps)
  have "lnfact ((n - x_i - y_j + of_int k) + 1) =
      lnfact (n - x_i - y_j + of_int k) + ln ((n - x_i - y_j + of_int k) + 1)"
    using assms(4) by (intro lnfact_plus_one) simp
  then have d: "lnfact (n - x_i - y_j + (of_int k + 1)) =
      lnfact (n - x_i - y_j + of_int k) + ln (n - x_i - y_j + of_int k + 1)"
    by (simp add: algebra_simps)
  show ?thesis
    unfolding log_denominator_def of_int_add of_int_1 a b c d by simp
qed

lemma pmf_loop_closed:
  assumes "0 \<le> k" "x_i + y_j - n < of_int k + 1" "of_int e \<le> x_i" "of_int e \<le> y_j"
  shows "pmf_loop n x_i y_j num (Fin (log_denominator n x_i y_j (of_int k))) [k..e] =
     map (\<lambda>j. (j, Fin (exp (num - log_denominator n x_i y_j (of_int j))))) [k..e]"
  using assms
proof (induction k e rule: upto.induct)
  case (1 k e)
  show ?case
  proof (cases "k < e")
    case True
    have le: "of_int k + 1 \<le> (of_int e :: real)"
      using True by (metis of_int_1 of_int_add of_int_le_iff zless_imp_add1_zle)
    have kx: "of_int k + 1 \<le> x_i" and ky: "of_int k + 1 \<le> y_j"
      using le "1.prems"(3,4) by simp_all
    have pos: "0 < n - x_i - y_j + of_int k + 1"
      using "1.prems"(2) by simp
    have step: "fadd (Fin (log_denominator n x_i y_j (of_int k)))
            (fadd (fsub (fsub (np_log (of_int k + 1)) (np_log (x_i - of_int k)))
                        (np_log (y_j - of_int k)))
                  (np_log (n - x_i - y_j + of_int k + 1))) =
          Fin (log_denominator n x_i y_j (of_int (k + 1)))"
    proof -
      have "0 < (of_int k :: real) + 1" using "1.prems"(1) by simp
      moreover have "0 < x_i - of_int k" "0 < y_j - of_int k" using kx ky by simp_all
      ultimately show ?thesis
        using pos log_denominator_step [OF "1.prems"(1) kx ky pos]
        by (simp add: np_log_pos fsub_def)
    qed
    have "x_i + y_j - n < of_int (k + 1) + 1" using "1.prems"(2) by simp
    then have "pmf_loop n x_i y_j num (Fin (log_denominator n x_i y_j (of_int (k + 1)))) [k + 1..e] =
         map (\<lambda>j. (j, Fin (exp (num - log_denominator n x_i y_j (of_int j))))) [k + 1..e]"
      using True "1.prems" by (intro "1.IH") simp_all
    then show ?thesis
      using True step by (simp add: upto_rec1 [of k e] Let_def fsub_def)
  next
    case False
    show ?thesis
    proof (cases "k = e")
      case True
      then show ?thesis by (simp add: Let_def fsub_def)
    next
      case False
      then have "e < k" using \<open>\<not> k < e\<close> by simp
      then show ?thesis by simp
    qed
  qed
qed

lemma truncated_start:
  assumes "0 \<le> x_i" "x_i \<le> n" "0 \<le> y_j" "y_j \<le> n"
  shows "0 \<le> py_int (max 0 (x_i + y_j - n))"
    and "py_int (max 0 (x_i + y_j - n)) \<le> py_int (min x_i y_j)"
    and "x_i + y_j - n < of_int (py_int (max 0 (x_i + y_j - n))) + 1"
    and "of_int (py_int (max 0 (x_i + y_j - n))) \<le> x_i"
    and "of_int (py_int (max 0 (x_i + y_j - n))) \<le> y_j"
    and "of_int (py_int (min x_i y_j)) \<le> x_i"
    and "of_int (py_int (min x_i y_j)) \<le> y_j"
proof -
  have m: "0 \<le> max 0 (x_i + y_j - n)" "0 \<le> min x_i y_j" using assms by simp_all
  have le: "max 0 (x_i + y_j - n) \<le> min x_i y_j" using assms by simp
  have s: "py_int (max 0 (x_i + y_j - n)) = \<lfloor>max 0 (x_i + y_j - n)\<rfloor>"
    and e: "py_int (min x_i y_j) = \<lfloor>min x_i y_j\<rfloor>"
    using m by (simp_all only: py_int_nonneg)
  show "0 \<le> py_int (max 0 (x_i + y_j - n))" unfolding s by simp
  show "py_int (max 0 (x_i + y_j - n)) \<le> py_int (min x_i y_j)"
    unfolding s e using le by (rule floor_mono)
  have "x_i + y_j - n \<le> max 0 (x_i + y_j - n)" by simp
  also have "\<dots> < of_int \<lfloor>max 0 (x_i + y_j - n)\<rfloor> + 1" by linarith
  finally show "x_i + y_j - n < of_int (py_int (max 0 (x_i + y_j - n))) + 1"
    unfolding s .
  have f: "of_int \<lfloor>max 0 (x_i + y_j - n)\<rfloor> \<le> max 0 (x_i + y_j - n)"
    by (rule of_int_floor_le)
  show "of_int (py_int (max 0 (x_i + y_j - n))) \<le> x_i"
    unfolding s using f le by linarith
  show "of_int (py_int (max 0 (x_i + y_j - n))) \<le> y_j"
    unfolding s using f le by linarith
  have g: "of_int \<lfloor>min x_i y_j\<rfloor> \<le> min x_i y_j" by (rule of_int_floor_le)
  show "of_int (py_int (min x_i y_j)) \<le> x_i" unfolding e using g by linarith
  show "of_int (py_int (min x_i y_j)) \<le> y_j" unfolding e using g by linarith
qed

lemma lgamma_arguments_pos:
  assumes "0 \<le> x_i" "x_i \<le> n" "0 \<le> y_j" "y_j \<le> n"
  shows "\<forall>t\<in>set (lgamma_arguments n x_i y_j). 0 < t"
proof -
  let ?s = "real_of_int (py_int (max 0 (x_i + y_j - n)))"
  have s: "n - (n - x_i) - (n - y_j) = x_i + y_j - n" by simp
  have t: "0 \<le> ?s" "x_i + y_j - n < ?s + 1" "?s \<le> x_i" "?s \<le> y_j"
    using truncated_start [OF assms] by simp_all
  have "0 < x_i + 1" "0 < y_j + 1" "0 < n - x_i + 1" "0 < n - y_j + 1" "0 < n + 1"
    "0 < ?s + 1" "0 < x_i - ?s + 1" "0 < y_j - ?s + 1" "0 < n - x_i - y_j + ?s + 1"
    using assms t by linarith+
  then show ?thesis
    unfolding lgamma_arguments_def Let_def s by (simp only: list.set ball_simps)
qed

lemma hypergeometric_pmf_closed:
  assumes "0 \<le> x_i" "x_i \<le> n" "0 \<le> y_j" "y_j \<le> n"
    and "\<forall>t\<in>set (lgamma_arguments n x_i y_j). lgamma t = Inr (ln_gamma t)"
  shows "hypergeometric_pmf lgamma n x_i y_j =
     Inr (map (\<lambda>k. (k, Fin (hypergeometric_closed_form n x_i y_j (of_int k))))
            [py_int (max 0 (x_i + y_j - n))..py_int (min x_i y_j)])"
proof -
  let ?s = "py_int (max 0 (x_i + y_j - n))" and ?e = "py_int (min x_i y_j)"
  have s: "n - (n - x_i) - (n - y_j) = x_i + y_j - n" by simp
  have "hypergeometric_pmf lgamma n x_i y_j =
      Inr (pmf_loop n x_i y_j (log_numerator n x_i y_j)
            (Fin (log_denominator n x_i y_j (of_int ?s))) [?s..?e])"
    using hypergeometric_pmf_defined [OF assms(5)]
    by (simp add: Let_def s log_numerator_def log_denominator_def lnfact_def algebra_simps)
  also have "pmf_loop n x_i y_j (log_numerator n x_i y_j)
            (Fin (log_denominator n x_i y_j (of_int ?s))) [?s..?e] =
      map (\<lambda>k. (k, Fin (hypergeometric_closed_form n x_i y_j (of_int k)))) [?s..?e]"
    unfolding hypergeometric_closed_form_def
    using truncated_start [OF assms(1-4)] by (intro pmf_loop_closed)
  finally show ?thesis .
qed

subsection \<open>The generator at small integral counts\<close>

lemma lgamma_exact_on_valid:
  assumes "0 \<le> x_i" "x_i \<le> n" "0 \<le> y_j" "y_j \<le> n"
  shows "\<forall>t\<in>set (lgamma_arguments n x_i y_j). lgamma_exact t = Inr (ln_gamma t)"
  using lgamma_arguments_pos [OF assms] by (simp add: lgamma_exact_pos)

lemma ln_gamma_values: "lnfact 0 = 0" "lnfact 1 = 0" "lnfact 2 = ln 2" "lnfact 3 = ln 6"
  by (simp_all add: lnfact_def ln_gamma_one ln_gamma_2 ln_gamma_3 ln_gamma_4)

lemma pmf_2_1_1:
  "hypergeometric_pmf lgamma_exact 2 1 1 = Inr [(0, Fin (1 / 2)), (1, Fin (1 / 2))]"
proof -
  have "hypergeometric_pmf lgamma_exact 2 1 1 =
     Inr (map (\<lambda>k. (k, Fin (hypergeometric_closed_form 2 1 1 (of_int k))))
            [py_int (max 0 (1 + 1 - 2))..py_int (min 1 1)])"
    by (intro hypergeometric_pmf_closed lgamma_exact_on_valid) simp_all
  then show ?thesis
    by (simp add: py_int_def upto_rec1 hypergeometric_closed_form_def log_numerator_def
          log_denominator_def ln_gamma_values exp_minus inverse_eq_divide)
qed

lemma pmf_3_1_1:
  "hypergeometric_pmf lgamma_exact 3 1 1 = Inr [(0, Fin (2 / 3)), (1, Fin (1 / 3))]"
proof -
  have l4: "2 * ln 2 = ln (4::real)"
    using ln_realpow [of 2 2] by simp
  have l12: "ln 6 + ln 2 = ln (12::real)"
    using ln_mult_pos [of 6 2] by simp
  have "hypergeometric_pmf lgamma_exact 3 1 1 =
     Inr (map (\<lambda>k. (k, Fin (hypergeometric_closed_form 3 1 1 (of_int k))))
            [py_int (max 0 (1 + 1 - 3))..py_int (min 1 1)])"
    by (intro hypergeometric_pmf_closed lgamma_exact_on_valid) simp_all
  then show ?thesis
    by (simp add: py_int_def upto_rec1 hypergeometric_closed_form_def log_numerator_def
          log_denominator_def ln_gamma_values l4 l12 exp_diff)
qed

subsection \<open>The value of the expected mutual information\<close>

lemma truediv_Np: "truediv pr (Np g) = Inr (fdiv (val pr) g)"
  by (cases pr) simp_all

lemma emi_loop_vals:
  assumes "\<forall>k\<in>set ks. 0 \<le> k" "val pr = Fin a" "val sp = Fin b"
  shows "\<exists>pr' sp'. emi_loop (Fin c) (map (\<lambda>k. (k, Fin (P k))) ks) (pr, sp) = (pr', sp')
      \<and> val pr' = Fin (a + (\<Sum>k\<leftarrow>ks. of_int k * (c + log 2 (of_int k)) * P k))
      \<and> val sp' = Fin (b + (\<Sum>k\<leftarrow>ks. P k))
      \<and> (ks = [] \<or> (\<exists>g. sp' = Np g))"
  using assms
proof (induction ks arbitrary: pr sp a b)
  case Nil
  then show ?case by simp
next
  case (Cons k ks)
  let ?pr = "if k \<noteq> 0
        then iadd pr (fmul (fmul (Fin (of_int k)) (fadd (Fin c) (np_log2 (of_int k)))) (Fin (P k)))
        else pr"
  let ?sp = "iadd sp (Fin (P k))"
  have k: "0 \<le> k" and rest: "\<forall>j\<in>set ks. 0 \<le> j" using Cons.prems(1) by simp_all
  have vpr: "val ?pr = Fin (a + of_int k * (c + log 2 (of_int k)) * P k)"
    using k Cons.prems(2) by (simp add: iadd_def np_log2_pos)
  have vsp: "val ?sp = Fin (b + P k)"
    using Cons.prems(3) by (simp add: iadd_def)
  obtain pr' sp' where r:
    "emi_loop (Fin c) (map (\<lambda>k. (k, Fin (P k))) ks) (?pr, ?sp) = (pr', sp')"
    "val pr' = Fin (a + of_int k * (c + log 2 (of_int k)) * P k
                 + (\<Sum>k\<leftarrow>ks. of_int k * (c + log 2 (of_int k)) * P k))"
    "val sp' = Fin (b + P k + (\<Sum>k\<leftarrow>ks. P k))"
    "ks = [] \<or> (\<exists>g. sp' = Np g)"
    using Cons.IH [OF rest vpr vsp] by blast
  have np: "\<exists>g. sp' = Np g"
  proof (cases ks)
    case Nil
    then have "sp' = ?sp" using r(1) by simp
    then show ?thesis by (simp add: iadd_def)
  next
    case (Cons j js)
    then show ?thesis using r(4) by simp
  qed
  show ?case
    using r np by (simp add: add.assoc)
qed

lemma sum_list_exp_pos:
  "ks \<noteq> [] \<Longrightarrow> 0 < (\<Sum>k\<leftarrow>ks. exp (f k :: real))"
proof (induction ks)
  case Nil
  then show ?case by simp
next
  case (Cons k ks)
  have "0 \<le> (\<Sum>k\<leftarrow>ks. exp (f k))" by (rule sum_list_nonneg) auto
  moreover have "0 < exp (f k)" by simp
  ultimately have "0 < exp (f k) + (\<Sum>k\<leftarrow>ks. exp (f k))" by (rule add_pos_nonneg [rotated])
  then show ?case by simp
qed

text \<open>On valid positive weights, with \<open>lgamma\<close> exact, the function returns the accumulated
  sum divided by the accumulated probability mass; the terms of the sum carry the factor
  \<open>n_ij\<close>, not \<open>n_ij / n\<close>.\<close>

lemma emi_weighted_sum:
  assumes "0 < x_i" "x_i \<le> n" "0 < y_j" "y_j \<le> n"
    and "\<forall>t\<in>set (lgamma_arguments n x_i y_j). lgamma t = Inr (ln_gamma t)"
  shows "calculate_partial_expected_mutual_information lgamma n x_i y_j =
     Inr (Fin ((\<Sum>n_ij\<leftarrow>[py_int (max 0 (x_i + y_j - n))..py_int (min x_i y_j)].
                  of_int n_ij
                    * ((- log 2 x_i - log 2 y_j + log 2 n) + log 2 (of_int n_ij))
                    * hypergeometric_closed_form n x_i y_j (of_int n_ij))
               / (\<Sum>n_ij\<leftarrow>[py_int (max 0 (x_i + y_j - n))..py_int (min x_i y_j)].
                    hypergeometric_closed_form n x_i y_j (of_int n_ij))))"
proof -
  let ?s = "py_int (max 0 (x_i + y_j - n))"
  let ?ks = "[?s..py_int (min x_i y_j)]"
  let ?c = "- log 2 x_i - log 2 y_j + log 2 n"
  let ?P = "\<lambda>k. hypergeometric_closed_form n x_i y_j (of_int k)"
  have v: "0 \<le> x_i" "0 \<le> y_j" and n: "0 < n" using assms by simp_all
  have coef: "fadd (fsub (fneg (np_log2 x_i)) (np_log2 y_j)) (np_log2 n) = Fin ?c"
    using assms n by (simp add: np_log2_pos fsub_def)
  have pmf: "hypergeometric_pmf lgamma n x_i y_j = Inr (map (\<lambda>k. (k, Fin (?P k))) ?ks)"
    using v(1) assms(2) v(2) assms(4,5) by (rule hypergeometric_pmf_closed)
  have st: "0 \<le> ?s" "?s \<le> py_int (min x_i y_j)"
    using truncated_start [OF v(1) assms(2) v(2) assms(4)] by simp_all
  have ne: "?ks \<noteq> []" using st by simp
  have nonneg: "\<forall>k\<in>set ?ks. 0 \<le> k" using st by simp
  obtain pr' sp' where r:
    "emi_loop (Fin ?c) (map (\<lambda>k. (k, Fin (?P k))) ?ks) (PyFloat 0, PyFloat 0) = (pr', sp')"
    "val pr' = Fin (0 + (\<Sum>k\<leftarrow>?ks. of_int k * (?c + log 2 (of_int k)) * ?P k))"
    "val sp' = Fin (0 + (\<Sum>k\<leftarrow>?ks. ?P k))"
    "?ks = [] \<or> (\<exists>g. sp' = Np g)"
    using emi_loop_vals [OF nonneg, of "PyFloat 0" 0 "PyFloat 0" 0 ?c ?P] by auto
  obtain g where g: "sp' = Np g" using r(4) ne by blast
  have pos: "0 < (\<Sum>k\<leftarrow>?ks. ?P k)"
    unfolding hypergeometric_closed_form_def using ne by (rule sum_list_exp_pos)
  have "emi_of_pmf (Fin ?c) (map (\<lambda>k. (k, Fin (?P k))) ?ks) = Inr (fdiv (val pr') (val sp'))"
    using r(1) g by (simp add: emi_of_pmf_def truediv_Np)
  also have "\<dots> = Inr (Fin ((\<Sum>k\<leftarrow>?ks. of_int k * (?c + log 2 (of_int k)) * ?P k)
                            / (\<Sum>k\<leftarrow>?ks. ?P k)))"
    using pos by (simp add: r(2) r(3))
  finally show ?thesis
    by (simp only: calculate_partial_expected_mutual_information_def Let_def coef pmf bindE_def
          sum.case)
qed

lemma emi_2_1_1:
  "calculate_partial_expected_mutual_information lgamma_exact 2 1 1 = Inr (Fin (1 / 2))"
  by (simp add: calculate_partial_expected_mutual_information_def pmf_2_1_1 bindE_def
        emi_of_pmf_def np_log2_def fsub_def iadd_def)

lemma formula_2_1_1: "expected_mutual_information_formula 2 1 1 = 1 / 4"
  by (simp add: expected_mutual_information_formula_def upto_rec1
        hypergeometric_probability_def fact_numeral)



subsection \<open>The generator at fractional and at invalid weights\<close>

lemma ln_gamma_half_lower: "3 / 2 * ln 2 - ln (15 / 8) \<le> ln_gamma (1 / 2)"
proof -
  have "ln_gamma_series (1 / 2) (Suc 1) \<le> ln_gamma (1 / 2)"
    by (rule ln_gamma_series_converges) simp
  moreover have "ln_gamma_series (1 / 2) (Suc 1) = 3 / 2 * ln 2 - (ln (3 / 2) + ln (5 / 4))"
    by (simp add: ln_gamma_series_def ln_div algebra_simps)
  moreover have "ln (3 / 2) + ln (5 / 4) = ln (15 / 8 :: real)"
    using ln_mult_pos [of "3 / 2" "5 / 4 :: real"] by simp
  ultimately show ?thesis by simp
qed

lemma ln_gamma_half_sum_pos: "0 < ln_gamma (3 / 2) + ln_gamma (1 / 2)"
proof -
  have "ln_gamma (1 / 2 + 1) = ln_gamma (1 / 2) + ln (1 / 2)"
    by (rule ln_gamma_plus_one) simp
  then have e: "ln_gamma (3 / 2) = ln_gamma (1 / 2) - ln 2"
    by (simp add: ln_div)
  have "ln (15 / 8) < ln (2 :: real)" by (subst ln_less_cancel_iff) simp_all
  then show ?thesis
    using ln_gamma_half_lower unfolding e by linarith
qed

lemma pmf_fractional:
  "hypergeometric_pmf lgamma_exact (5 / 2) (5 / 2) (3 / 2) =
     Inr [(1, Fin (hypergeometric_closed_form (5 / 2) (5 / 2) (3 / 2) 1))]"
proof -
  have "hypergeometric_pmf lgamma_exact (5 / 2) (5 / 2) (3 / 2) =
     Inr (map (\<lambda>k. (k, Fin (hypergeometric_closed_form (5 / 2) (5 / 2) (3 / 2) (of_int k))))
            [py_int (max 0 (5 / 2 + 3 / 2 - 5 / 2))..py_int (min (5 / 2) (3 / 2))])"
    by (intro hypergeometric_pmf_closed lgamma_exact_on_valid) simp_all
  then show ?thesis
    by (simp add: py_int_def)
qed

lemma closed_form_fractional:
  "hypergeometric_closed_form (5 / 2) (5 / 2) (3 / 2) 1 < 1"
  "exp (log_numerator (5 / 2) (5 / 2) (3 / 2)
         - log_denominator (5 / 2) (5 / 2) (3 / 2) (max 0 (5 / 2 + 3 / 2 - 5 / 2))) = 1"
proof -
  have "log_numerator (5 / 2) (5 / 2) (3 / 2) - log_denominator (5 / 2) (5 / 2) (3 / 2) 1
      = - (ln_gamma (3 / 2) + ln_gamma (1 / 2))"
    by (simp add: log_numerator_def log_denominator_def lnfact_def ln_gamma_one ln_gamma_2)
  then show "hypergeometric_closed_form (5 / 2) (5 / 2) (3 / 2) 1 < 1"
    using ln_gamma_half_sum_pos by (simp add: hypergeometric_closed_form_def)
  show "exp (log_numerator (5 / 2) (5 / 2) (3 / 2)
         - log_denominator (5 / 2) (5 / 2) (3 / 2) (max 0 (5 / 2 + 3 / 2 - 5 / 2))) = 1"
    by (simp add: log_numerator_def log_denominator_def lnfact_def ln_gamma_one ln_gamma_2)
qed



lemma lgamma_exact_neg_half: "lgamma_exact (- (1 / 2)) = Inr (ln_gamma (- (1 / 2)))"
proof -
  have "\<lfloor>- (1 / 2) :: real\<rfloor> = - 1" by (simp add: floor_eq_iff)
  then have "real_of_int \<lfloor>- (1 / 2) :: real\<rfloor> \<noteq> - (1 / 2)" by simp
  then show ?thesis unfolding lgamma_exact_def by simp
qed

lemma lgamma_exact_returns_1_1_4:
  "\<forall>t\<in>set (lgamma_arguments (1 / 2) (1 / 2) 2). \<exists>v. lgamma_exact t = Inr v"
  by (simp add: lgamma_arguments_def py_int_def lgamma_exact_pos lgamma_exact_neg_half)

lemma pmf_1_1_4: "hypergeometric_pmf lgamma_exact (1 / 2) (1 / 2) 2 = Inr []"
proof -
  obtain num den where "hypergeometric_pmf lgamma_exact (1 / 2) (1 / 2) 2 =
     Inr (pmf_loop (1 / 2) (1 / 2) 2 num den
            [py_int (max 0 (1 / 2 - (1 / 2 - 1 / 2) - (1 / 2 - 2)))..py_int (min (1 / 2) 2)])"
    using hypergeometric_pmf_returns [OF lgamma_exact_returns_1_1_4] by blast
  then show ?thesis
    by (simp add: py_int_def)
qed





subsection \<open>Symmetry in exact arithmetic\<close>

text \<open>When the log-factorials return, exchanging \<open>x_i\<close> and \<open>y_j\<close> changes nothing in exact
  arithmetic. The doubles of the two calls are sums taken in different orders, which this
  model does not tell apart.\<close>

lemma fsub_swap: "fsub (fsub a b) c = fsub (fsub a c) b"
  by (cases a; cases b; cases c; simp add: fsub_def)

lemma fneg_fsub_swap: "fsub (fneg a) b = fsub (fneg b) a"
  by (cases a; cases b; simp add: fsub_def)

lemma pmf_loop_sym: "pmf_loop n x_i y_j num den ks = pmf_loop n y_j x_i num den ks"
proof (induction ks arbitrary: den)
  case Nil
  show ?case by simp
next
  case (Cons k ks)
  have e: "n - x_i - y_j + of_int k + 1 = n - y_j - x_i + of_int k + 1" by simp
  have s: "fsub (fsub (np_log (of_int k + 1)) (np_log (x_i - of_int k)))
                (np_log (y_j - of_int k)) =
           fsub (fsub (np_log (of_int k + 1)) (np_log (y_j - of_int k)))
                (np_log (x_i - of_int k))"
    by (rule fsub_swap)
  show ?case
    unfolding pmf_loop.simps Let_def e s Cons.IH ..
qed

lemma lgamma_arguments_sym:
  "set (lgamma_arguments n y_j x_i) = set (lgamma_arguments n x_i y_j)"
proof -
  have s: "n - (n - y_j) - (n - x_i) = n - (n - x_i) - (n - y_j)"
    and e: "n - y_j - x_i = n - x_i - y_j"
    by simp_all
  show ?thesis
    unfolding lgamma_arguments_def Let_def s e by auto
qed

lemma hypergeometric_pmf_sym:
  assumes "\<forall>t\<in>set (lgamma_arguments n x_i y_j). \<exists>v. lgamma t = Inr v"
  shows "hypergeometric_pmf lgamma n x_i y_j = hypergeometric_pmf lgamma n y_j x_i"
proof -
  let ?g = "\<lambda>t. projr (lgamma t)"
  have g: "\<forall>t\<in>set (lgamma_arguments n x_i y_j). lgamma t = Inr (?g t)"
    using assms by auto
  then have g': "\<forall>t\<in>set (lgamma_arguments n y_j x_i). lgamma t = Inr (?g t)"
    by (simp only: lgamma_arguments_sym)
  have s: "n - (n - y_j) - (n - x_i) = n - (n - x_i) - (n - y_j)"
    and e: "n - y_j - x_i = n - x_i - y_j"
    by simp_all
  show ?thesis
    unfolding hypergeometric_pmf_defined [OF g] hypergeometric_pmf_defined [OF g'] Let_def s e
    by (simp add: pmf_loop_sym [of n y_j x_i] min.commute add.commute add.left_commute)
qed

lemma emi_sym:
  assumes "\<forall>t\<in>set (lgamma_arguments n x_i y_j). \<exists>v. lgamma t = Inr v"
  shows "calculate_partial_expected_mutual_information lgamma n x_i y_j =
         calculate_partial_expected_mutual_information lgamma n y_j x_i"
  by (simp add: calculate_partial_expected_mutual_information_def
        hypergeometric_pmf_sym [OF assms] fneg_fsub_swap [of "np_log2 x_i"])

section \<open>Properties\<close>

subsection \<open>Mutual information of one cell\<close>

text \<open>
  C5. For all \<open>x_i\<close>, \<open>y_j\<close> and \<open>n\<close>, the mutual information of a cell with \<open>n_ij = 0\<close> is exactly
  \<open>0\<close>: the test comes before any logarithm, so the result is \<open>0\<close> also where a logarithm
  would be infinite or undefined.
\<close>

theorem partial_mutual_information_zero:
  "calculate_partial_mutual_information 0 x_i y_j n = Fin 0"
  by (simp add: calculate_partial_mutual_information_def)

text \<open>Without the test the expression would be \<open>0 * (-inf)\<close>, which is \<open>nan\<close>.\<close>

lemma partial_mutual_information_expanded_at_zero:
  "0 < x_i \<Longrightarrow> 0 < y_j \<Longrightarrow> 0 < n \<Longrightarrow> partial_mutual_information_expanded 0 x_i y_j n = NaN"
  by (simp add: partial_mutual_information_expanded_def np_log2_def fsub_def signed_inf_def)

text \<open>
  C2. For every \<open>n_ij \<noteq> 0\<close> and positive \<open>x_i\<close>, \<open>y_j\<close>, \<open>n\<close>, the mutual information of the
  cell equals \<open>n_ij * (log2(n_ij * n) - log2(x_i * y_j))\<close>, and equally
  \<open>n_ij * (log2(n_ij) + log2(n) - log2(x_i) - log2(y_j))\<close>; the function is one expression, with
  no loop. (For a negative \<open>n_ij\<close> all three are \<open>nan\<close>.)
\<close>

theorem partial_mutual_information_closed_form:
  assumes "n_ij \<noteq> 0" "0 < x_i" "0 < y_j" "0 < n"
  shows "calculate_partial_mutual_information n_ij x_i y_j n =
           partial_mutual_information_formula n_ij x_i y_j n
       \<and> calculate_partial_mutual_information n_ij x_i y_j n =
           partial_mutual_information_expanded n_ij x_i y_j n"
proof (cases "0 < n_ij")
  case True
  then have "0 < n_ij * n" "0 < x_i * y_j" using assms by simp_all
  then show ?thesis
    using True assms
    by (simp add: calculate_partial_mutual_information_def partial_mutual_information_formula_def
          partial_mutual_information_expanded_def np_log2_pos fsub_def log_mult algebra_simps)
next
  case False
  then have neg: "n_ij < 0" using assms by simp
  then have "n_ij * n < 0" using assms by (simp add: mult_neg_pos)
  then show ?thesis
    using neg assms
    by (simp add: calculate_partial_mutual_information_def partial_mutual_information_formula_def
          partial_mutual_information_expanded_def np_log2_neg np_log2_pos fsub_def)
qed

theorem partial_mutual_information_closed_form_witness:
  "(4::real) \<noteq> 0 \<and> (0::real) < 2 \<and> (0::real) < 8 \<and> (0::real) < 16
   \<and> calculate_partial_mutual_information 4 2 8 16 = Fin 8
   \<and> partial_mutual_information_formula 4 2 8 16 = Fin 8"
proof -
  have l: "log 2 64 = 6" "log 2 16 = 4" "log 2 4 = 2" "log 2 8 = 3"
    using log_pow_cancel [of 2 6] log_pow_cancel [of 2 4] log_pow_cancel [of 2 2]
      log_pow_cancel [of 2 3] by simp_all
  show ?thesis
    using partial_mutual_information_closed_form [of 4 2 8 16] l
    by (simp add: partial_mutual_information_formula_def np_log2_def fsub_def)
qed

subsection \<open>The hypergeometric probabilities\<close>




text \<open>
  C4, as the code has it. For the same weights, with \<open>lgamma\<close> exact at the nine arguments,
  the first probability yielded is \<open>exp(log_numerator - log_denominator)\<close> with the
  log-denominator taken at the truncated \<open>start = int(max(0, n - (n - x_i) - (n - y_j)))\<close>;
  the later ones come from the loop, which adds
  \<open>ln(n_ij + 1) - ln(x_i - n_ij) - ln(y_j - n_ij) + ln(n - x_i - y_j + n_ij + 1)\<close> to the
  log-denominator after each pair; and in exact arithmetic the probability yielded with every
  joint count of the support is the one that the five log-factorials give directly at that
  count.
\<close>

theorem hypergeometric_pmf_incremental:
  assumes "0 \<le> x_i" "x_i \<le> n" "0 \<le> y_j" "y_j \<le> n"
    and "\<forall>t\<in>set (lgamma_arguments n x_i y_j). lgamma t = Inr (ln_gamma t)"
  shows "\<exists>ps. hypergeometric_pmf lgamma n x_i y_j = Inr ps
      \<and> ps = pmf_loop n x_i y_j (log_numerator n x_i y_j)
               (Fin (log_denominator n x_i y_j (of_int (py_int (max 0 (x_i + y_j - n))))))
               [py_int (max 0 (x_i + y_j - n))..py_int (min x_i y_j)]
      \<and> hd ps = (py_int (max 0 (x_i + y_j - n)),
                 Fin (exp (log_numerator n x_i y_j
                     - log_denominator n x_i y_j (of_int (py_int (max 0 (x_i + y_j - n)))))))
      \<and> ps = map (\<lambda>n_ij. (n_ij, Fin (hypergeometric_closed_form n x_i y_j (of_int n_ij))))
                 [py_int (max 0 (x_i + y_j - n))..py_int (min x_i y_j)]"
proof -
  let ?s = "py_int (max 0 (x_i + y_j - n))" and ?e = "py_int (min x_i y_j)"
  let ?ps = "pmf_loop n x_i y_j (log_numerator n x_i y_j)
            (Fin (log_denominator n x_i y_j (of_int ?s))) [?s..?e]"
  have t: "0 \<le> ?s" "?s \<le> ?e" "x_i + y_j - n < of_int ?s + 1" "of_int ?e \<le> x_i" "of_int ?e \<le> y_j"
    using truncated_start [OF assms(1-4)] by simp_all
  have closed: "?ps = map (\<lambda>n_ij. (n_ij, Fin (hypergeometric_closed_form n x_i y_j (of_int n_ij)))) [?s..?e]"
    unfolding hypergeometric_closed_form_def
    using t by (intro pmf_loop_closed)
  have ret: "hypergeometric_pmf lgamma n x_i y_j = Inr ?ps"
    unfolding closed using assms by (rule hypergeometric_pmf_closed)
  have "hd ?ps = (?s, Fin (exp (log_numerator n x_i y_j - log_denominator n x_i y_j (of_int ?s))))"
    unfolding closed hypergeometric_closed_form_def
    using t(2) by (subst upto_rec1) simp_all
  with ret closed show ?thesis by blast
qed

theorem hypergeometric_pmf_incremental_witness:
  "(0::real) \<le> 1 \<and> (1::real) \<le> 3
   \<and> hypergeometric_pmf lgamma_exact 3 1 1 = Inr [(0, Fin (2 / 3)), (1, Fin (1 / 3))]"
proof -
  have l4: "2 * ln 2 = ln (4::real)"
    using ln_realpow [of 2 2] by simp
  have l12: "ln 6 + ln 2 = ln (12::real)"
    using ln_mult_pos [of 6 2] by simp
  have e: "\<forall>t\<in>set (lgamma_arguments 3 1 1). lgamma_exact t = Inr (ln_gamma t)"
    by (rule lgamma_exact_on_valid) simp_all
  show ?thesis
    using hypergeometric_pmf_incremental [of 1 3 1 lgamma_exact] e
    by (auto simp add: py_int_def upto_rec1 hypergeometric_closed_form_def log_numerator_def
          log_denominator_def ln_gamma_values l4 l12 exp_diff)
qed

text \<open>With \<open>n = 2.5\<close>, \<open>x_i = 2.5\<close>, \<open>y_j = 1.5\<close> the only pair yielded has the joint count \<open>1\<close>,
  the truncated start, and its probability is below \<open>1\<close>, whereas the log-factorials taken at
  \<open>max(0, x_i + y_j - n) = 1.5\<close> give \<open>exp(0) = 1\<close>.\<close>

theorem hypergeometric_pmf_incremental_counterexample:
  "(0::real) \<le> 5 / 2 \<and> (0::real) \<le> 3 / 2 \<and> (3 / 2 :: real) \<le> 5 / 2
   \<and> hypergeometric_pmf lgamma_exact (5 / 2) (5 / 2) (3 / 2) =
        Inr [(1, Fin (hypergeometric_closed_form (5 / 2) (5 / 2) (3 / 2) 1))]
   \<and> hypergeometric_closed_form (5 / 2) (5 / 2) (3 / 2) 1 \<noteq>
        exp (log_numerator (5 / 2) (5 / 2) (3 / 2)
              - log_denominator (5 / 2) (5 / 2) (3 / 2) (max 0 (5 / 2 + 3 / 2 - 5 / 2)))"
  using pmf_fractional closed_form_fractional by simp

subsection \<open>Expected mutual information of one pair\<close>




text \<open>
  C1, at \<open>n = 2\<close>, \<open>x_i = 1\<close>, \<open>y_j = 1\<close>. The support is \<open>0, 1\<close> with probabilities \<open>1/2, 1/2\<close>,
  which sum to \<open>1\<close>. The docstring's sum, with its factor \<open>n_ij / n\<close>, is \<open>1/4\<close>; the function
  accumulates \<open>n_j * (coefficient + log2(n_j)) * p_j\<close> with no division by \<open>n\<close> and returns
  \<open>1/2\<close>.
\<close>

theorem expected_mutual_information_omits_division_by_n:
  "calculate_partial_expected_mutual_information lgamma_exact 2 1 1 = Inr (Fin (1 / 2))
   \<and> expected_mutual_information_formula 2 1 1 = 1 / 4"
  using emi_2_1_1 formula_2_1_1 by simp

subsection \<open>Weights with an empty support\<close>







end
